theory Spec2Isabelle
  imports Main "HOL-Library.Char_ord" "HOL-Library.List_Lexorder" "HOL-Library.AList"
    "HOL-Library.Sublist"
begin

section \<open>The GNU ELPA mirror script\<close>

text \<open>
  A shallow embedding of \<^verbatim>\<open>gnu_elpa_mirror.py\<close>. The script is a sequential pipeline of
  file-system operations, external commands (\<^verbatim>\<open>git\<close>, \<^verbatim>\<open>make\<close>) and calls of the
  hosting API. Every function of the script becomes a function on an explicit world:
  the file system below the script's directory, the state of the external collaborators,
  the lines written to standard error and the list of the processes started so far.
  A raised exception is the \<open>Inl\<close> branch of the result; the world reached when it was
  raised is kept, as the effects of a Python program are when it dies.
\<close>

subsection \<open>Exceptions and the exit status\<close>

datatype error =
    CalledProcessError nat "string list"  \<comment> \<open>\<^verbatim>\<open>check=True\<close> and a nonzero status\<close>
  | SystemExit nat                        \<comment> \<open>\<^verbatim>\<open>sys.exit\<close>\<close>
  | FileNotFoundError
  | FileExistsError
  | IsADirectoryError
  | NotADirectoryError
  | OSError
  | ShutilError "string list"             \<comment> \<open>\<^verbatim>\<open>shutil.Error\<close> of \<^verbatim>\<open>copytree\<close>: the names it failed on\<close>
  | KeyError
  | GithubException

text \<open>The status the interpreter exits with: that of \<^verbatim>\<open>sys.exit\<close>, 1 after an uncaught
  exception, 0 when the script runs to its end.\<close>

fun exit_status :: "error + 'a \<Rightarrow> nat" where
  "exit_status (Inr _) = 0"
| "exit_status (Inl (SystemExit n)) = n"
| "exit_status (Inl _) = 1"

subsection \<open>The file system\<close>

text \<open>
  A node is a regular file with its contents, a symbolic link, or a directory with its
  entries by name. A link carries its text and what following it reaches at the moment
  the script looks (\<open>None\<close> for a dangling link); the script never changes the target of
  a link it later reads through. Paths are lists of names below the directory of the
  script, which is its working directory (\<^verbatim>\<open>os.chdir(os.path.dirname(__file__))\<close>).
\<close>

datatype node =
    File string
  | Symlink string "node option"
  | Dir "(string \<times> node) list"

type_synonym path = "string list"
type_synonym entries = "(string \<times> node) list"

text \<open>What \<^verbatim>\<open>stat\<close> sees of a node: links are followed to their end.\<close>

fun follow :: "node \<Rightarrow> node option" where
  "follow (File c) = Some (File c)"
| "follow (Dir es) = Some (Dir es)"
| "follow (Symlink t None) = None"
| "follow (Symlink t (Some n)) = follow n"

text \<open>\<^verbatim>\<open>lstat\<close> of a path: every component but the last is followed.\<close>

fun lstat :: "node \<Rightarrow> path \<Rightarrow> node option" where
  "lstat n [] = Some n"
| "lstat n (c # cs) =
     (case follow n of
        Some (Dir es) \<Rightarrow> (case map_of es c of None \<Rightarrow> None | Some m \<Rightarrow> lstat m cs)
      | _ \<Rightarrow> None)"

definition stat :: "node \<Rightarrow> path \<Rightarrow> node option" where
  "stat root p = (case lstat root p of None \<Rightarrow> None | Some n \<Rightarrow> follow n)"

text \<open>\<^verbatim>\<open>Path.is_dir\<close> follows links and is false for a missing path;
  \<^verbatim>\<open>Path.is_symlink\<close> does not follow.\<close>

definition is_dir :: "node \<Rightarrow> path \<Rightarrow> bool" where
  "is_dir root p = (case stat root p of Some (Dir _) \<Rightarrow> True | _ \<Rightarrow> False)"

definition is_symlink :: "node \<Rightarrow> path \<Rightarrow> bool" where
  "is_symlink root p = (case lstat root p of Some (Symlink _ _) \<Rightarrow> True | _ \<Rightarrow> False)"

text \<open>\<^verbatim>\<open>Path.iterdir\<close>: the names in a directory, in the order the system lists them.\<close>

definition iterdir :: "node \<Rightarrow> path \<Rightarrow> error + string list" where
  "iterdir root p =
     (case stat root p of
        None \<Rightarrow> Inl FileNotFoundError
      | Some (Dir es) \<Rightarrow> Inr (map fst es)
      | Some _ \<Rightarrow> Inl NotADirectoryError)"

text \<open>Changing the entries of the directory a path reaches. The result is the new root.\<close>

fun modify_dir :: "path \<Rightarrow> (entries \<Rightarrow> entries) \<Rightarrow> node \<Rightarrow> node" where
  "modify_dir p f (File c) = File c"
| "modify_dir p f (Symlink t None) = Symlink t None"
| "modify_dir p f (Symlink t (Some n)) = Symlink t (Some (modify_dir p f n))"
| "modify_dir [] f (Dir es) = Dir (f es)"
| "modify_dir (c # cs) f (Dir es) =
     Dir (map (\<lambda>(k, m). if k = c then (k, modify_dir cs f m) else (k, m)) es)"


subsection \<open>Statements in sequence\<close>

text \<open>
  A statement takes the state and gives its result, or the exception it raised, with the
  state it leaves. \<open>andThen\<close> is the semicolon: an exception skips what follows.
  \<open>for_each\<close> is the \<^verbatim>\<open>for\<close> loop over a list; \<^verbatim>\<open>continue\<close> is \<open>ret ()\<close> as the body.
\<close>

type_synonym ('s, 'a) stmt = "'s \<Rightarrow> (error + 'a) \<times> 's"

definition ret :: "'a \<Rightarrow> ('s, 'a) stmt" where
  "ret a s = (Inr a, s)"

definition raise :: "error \<Rightarrow> ('s, 'a) stmt" where
  "raise e s = (Inl e, s)"

definition andThen :: "('s, 'a) stmt \<Rightarrow> ('a \<Rightarrow> ('s, 'b) stmt) \<Rightarrow> ('s, 'b) stmt" where
  "andThen m f s = (case m s of (Inl e, s') \<Rightarrow> (Inl e, s') | (Inr a, s') \<Rightarrow> f a s')"

primrec for_each :: "'a list \<Rightarrow> ('a \<Rightarrow> ('s, unit) stmt) \<Rightarrow> ('s, unit) stmt" where
  "for_each [] body = ret ()"
| "for_each (x # xs) body = andThen (body x) (\<lambda>_. for_each xs body)"

subsection \<open>The library calls on the file system\<close>

text \<open>\<^verbatim>\<open>Path.unlink\<close> removes one entry, a link as the link it is.\<close>

definition unlink :: "path \<Rightarrow> (node, unit) stmt" where
  "unlink p root =
     (case lstat root p of
        None \<Rightarrow> (Inl FileNotFoundError, root)
      | Some (Dir _) \<Rightarrow> (Inl IsADirectoryError, root)
      | Some _ \<Rightarrow>
          if p = [] then (Inl OSError, root)
          else (Inr (), modify_dir (butlast p) (AList.delete (last p)) root))"

text \<open>\<^verbatim>\<open>shutil.rmtree\<close> removes a directory with all below it; it refuses a symbolic link.\<close>

definition rmtree :: "path \<Rightarrow> (node, unit) stmt" where
  "rmtree p root =
     (case lstat root p of
        None \<Rightarrow> (Inl FileNotFoundError, root)
      | Some (File _) \<Rightarrow> (Inl NotADirectoryError, root)
      | Some (Symlink _ _) \<Rightarrow> (Inl OSError, root)
      | Some (Dir _) \<Rightarrow>
          if p = [] then (Inl OSError, root)
          else (Inr (), modify_dir (butlast p) (AList.delete (last p)) root))"

text \<open>
  \<^verbatim>\<open>open(p, "w")\<close> followed by writing \<open>c\<close>: a missing file is created in its directory,
  a file is truncated, a link is written through.
\<close>

fun put_file :: "string \<Rightarrow> node \<Rightarrow> node" where
  "put_file c (File _) = File c"
| "put_file c (Dir es) = Dir es"
| "put_file c (Symlink t None) = Symlink t (Some (File c))"
| "put_file c (Symlink t (Some n)) = Symlink t (Some (put_file c n))"

definition write_file :: "path \<Rightarrow> string \<Rightarrow> (node, unit) stmt" where
  "write_file p c root =
     (case lstat root p of
        Some n \<Rightarrow>
          (case follow n of
             Some (Dir _) \<Rightarrow> (Inl IsADirectoryError, root)
           | _ \<Rightarrow>
              if p = [] then (Inr (), put_file c root)
              else (Inr (), modify_dir (butlast p)
                      (map (\<lambda>(k, m). if k = last p then (k, put_file c m) else (k, m))) root))
      | None \<Rightarrow>
          if p \<noteq> [] \<and> is_dir root (butlast p)
          then (Inr (), modify_dir (butlast p) (\<lambda>es. es @ [(last p, File c)]) root)
          else (Inl FileNotFoundError, root))"

text \<open>\<^verbatim>\<open>open(p)\<close> and \<^verbatim>\<open>read()\<close>.\<close>

definition read_file :: "path \<Rightarrow> (node, string) stmt" where
  "read_file p root =
     (case stat root p of
        Some (File c) \<Rightarrow> (Inr c, root)
      | Some _ \<Rightarrow> (Inl IsADirectoryError, root)
      | None \<Rightarrow> (Inl FileNotFoundError, root))"

text \<open>
  \<^verbatim>\<open>shutil.copyfile(src, dst)\<close> with its default \<^verbatim>\<open>follow_symlinks=True\<close>: the source is
  opened through any link, and the destination receives its contents as a regular file.
\<close>

definition copyfile :: "path \<Rightarrow> path \<Rightarrow> (node, unit) stmt" where
  "copyfile src dst root =
     (case stat root src of
        None \<Rightarrow> (Inl FileNotFoundError, root)
      | Some (File c) \<Rightarrow> write_file dst c root
      | Some _ \<Rightarrow> (Inl IsADirectoryError, root))"

text \<open>
  \<^verbatim>\<open>shutil.copytree(src, dst)\<close> with its default \<^verbatim>\<open>symlinks=False\<close>: below the source, a
  link to a directory is copied as that directory, a link to a file as that file, and a
  dangling link is recorded as a failure while the copy goes on. \<open>copied\<close> is what the
  copy of a node leaves at the destination, \<open>failures\<close> the paths it could not copy.
\<close>

fun copied :: "node \<Rightarrow> node option" where
  "copied (File c) = Some (File c)"
| "copied (Symlink t None) = None"
| "copied (Symlink t (Some n)) = copied n"
| "copied (Dir es) =
     Some (Dir (concat (map (\<lambda>(k, m). case copied m of None \<Rightarrow> [] | Some m' \<Rightarrow> [(k, m')]) es)))"

fun failures :: "node \<Rightarrow> path list" where
  "failures (File c) = []"
| "failures (Symlink t None) = [[]]"
| "failures (Symlink t (Some n)) = failures n"
| "failures (Dir es) = concat (map (\<lambda>(k, m). map ((#) k) (failures m)) es)"

text \<open>The destination must not exist; the script calls it with the destination's
  directory present, and a missing one is reported as it is for \<^verbatim>\<open>copyfile\<close>.\<close>

definition copytree :: "path \<Rightarrow> path \<Rightarrow> (node, unit) stmt" where
  "copytree src dst root =
     (case stat root src of
        None \<Rightarrow> (Inl FileNotFoundError, root)
      | Some (File _) \<Rightarrow> (Inl NotADirectoryError, root)
      | Some (Symlink _ _) \<Rightarrow> (Inl OSError, root)
      | Some (Dir es) \<Rightarrow>
          if lstat root dst \<noteq> None then (Inl FileExistsError, root)
          else if dst = [] \<or> \<not> is_dir root (butlast dst) then (Inl FileNotFoundError, root)
          else
            (case copied (Dir es) of
               None \<Rightarrow> (Inl OSError, root)
             | Some d \<Rightarrow>
                 (if failures (Dir es) = [] then Inr ()
                  else Inl (ShutilError (map (\<lambda>q. concat (map (\<lambda>c. CHR ''/'' # c) q)) (failures (Dir es)))),
                  modify_dir (butlast dst) (\<lambda>ds. ds @ [(last dst, d)]) root)))"

text \<open>\<^verbatim>\<open>Path.mkdir(exist_ok=True)\<close>.\<close>

definition mkdir_exist_ok :: "path \<Rightarrow> (node, unit) stmt" where
  "mkdir_exist_ok p root =
     (case lstat root p of
        Some n \<Rightarrow> if is_dir root p then (Inr (), root) else (Inl FileExistsError, root)
      | None \<Rightarrow>
          if p \<noteq> [] \<and> is_dir root (butlast p)
          then (Inr (), modify_dir (butlast p) (\<lambda>es. es @ [(last p, Dir [])]) root)
          else (Inl FileNotFoundError, root))"


subsection \<open>The world of a run\<close>

text \<open>
  One started process: its command line, the directory it ran in (\<open>[]\<close> is the script's
  own), whether \<^verbatim>\<open>check=True\<close> was passed, and the status it returned.
\<close>

record invocation =
  argv :: "string list"
  cwd :: path
  check :: bool
  returncode :: nat

text \<open>
  The world: the file system, the state \<open>'x\<close> of everything outside the script (the
  repositories of \<^verbatim>\<open>git\<close>, the remotes, the hosting service, the clock), the lines
  printed to standard error, and the processes started, oldest first.
\<close>

record 'x world =
  fs :: node
  outside :: 'x
  stderr :: "string list"
  trace :: "invocation list"

text \<open>
  The collaborators, as the capabilities the script uses: running a command in a
  directory gives a status and the captured output, and may change the files and the
  outside; the clock gives the formatted local time; the hosting API lists the
  repositories of the account, fetches the organization and creates a repository
  (name, description, homepage), each with the access token.
\<close>

record 'x env =
  exec :: "string list \<Rightarrow> path \<Rightarrow> node \<times> 'x \<Rightarrow> (nat \<times> string) \<times> node \<times> 'x"
  now :: "'x \<Rightarrow> string"
  get_repos :: "string \<Rightarrow> ('x, string list) stmt"
  get_organization :: "string \<Rightarrow> ('x, unit) stmt"
  create_repo :: "string \<Rightarrow> string \<Rightarrow> string \<Rightarrow> string \<Rightarrow> ('x, unit) stmt"

text \<open>A file-system call, or a call of the API, as a statement on the world.\<close>

definition on_fs :: "(node, 'a) stmt \<Rightarrow> ('x world, 'a) stmt" where
  "on_fs m w = (case m (fs w) of (r, root) \<Rightarrow> (r, w\<lparr>fs := root\<rparr>))"

definition on_outside :: "('x, 'a) stmt \<Rightarrow> ('x world, 'a) stmt" where
  "on_outside m w = (case m (outside w) of (r, x) \<Rightarrow> (r, w\<lparr>outside := x\<rparr>))"

text \<open>
  \<^verbatim>\<open>subprocess.run(cmd, cwd=dir, check=chk)\<close>: the process runs and is recorded; with
  \<^verbatim>\<open>check=True\<close> a nonzero status raises \<^verbatim>\<open>CalledProcessError\<close>, which carries the
  command line.
\<close>

definition subprocess_run ::
  "'x env \<Rightarrow> string list \<Rightarrow> path \<Rightarrow> bool \<Rightarrow> ('x world, nat \<times> string) stmt" where
  "subprocess_run env cmd dir chk w =
     (case exec env cmd dir (fs w, outside w) of
        ((rc, out), root, x) \<Rightarrow>
          let w' = w\<lparr>fs := root, outside := x,
                     trace := trace w @ [\<lparr>argv = cmd, cwd = dir, check = chk, returncode = rc\<rparr>]\<rparr>
          in if chk \<and> rc \<noteq> 0 then (Inl (CalledProcessError rc cmd), w') else (Inr (rc, out), w'))"

subsection \<open>Strings\<close>

text \<open>\<^verbatim>\<open>str(path)\<close>, \<^verbatim>\<open>str.strip()\<close> (the ASCII white space) and \<^verbatim>\<open>str.replace\<close>.\<close>

fun path_str :: "path \<Rightarrow> string" where
  "path_str [] = ''.''"
| "path_str [c] = c"
| "path_str (c # cs) = c @ ''/'' @ path_str cs"

definition is_space :: "char \<Rightarrow> bool" where
  "is_space c = (c \<in> set [CHR '' '', CHR 0x09, CHR 0x0A, CHR 0x0B, CHR 0x0C, CHR 0x0D,
                            CHR 0x1C, CHR 0x1D, CHR 0x1E, CHR 0x1F])"

definition strip :: "string \<Rightarrow> string" where
  "strip s = rev (dropWhile is_space (rev (dropWhile is_space s)))"

function replace_str :: "string \<Rightarrow> string \<Rightarrow> string \<Rightarrow> string" where
  "replace_str old new s =
     (if old = [] then new @ concat (map (\<lambda>c. c # new) s)
      else if s = [] then []
      else if prefix old s then new @ replace_str old new (drop (length old) s)
      else hd s # replace_str old new (tl s))"
  by pat_completeness auto
termination
  by (relation "measure (\<lambda>(old, new, s). length s)") auto

subsection \<open>The functions of the script\<close>

definition remove_prefix :: "string \<Rightarrow> string \<Rightarrow> string" where
  "remove_prefix pre s = (if prefix pre s then drop (length pre) s else s)"

definition log :: "string \<Rightarrow> ('x world, unit) stmt" where
  "log message w = (Inr (), w\<lparr>stderr := stderr w @ [message]\<rparr>)"

definition die :: "string \<Rightarrow> ('x world, 'a) stmt" where
  "die message = andThen (log (''gnu_elpa_mirror: '' @ message)) (\<lambda>_. raise (SystemExit 1))"

text \<open>The \<^verbatim>\<open>try\<close> around the clone: only \<^verbatim>\<open>CalledProcessError\<close> is handled.\<close>

definition clone_git_repo ::
  "'x env \<Rightarrow> string \<Rightarrow> path \<Rightarrow> bool \<Rightarrow> bool \<Rightarrow> bool \<Rightarrow> ('x world, unit) stmt" where
  "clone_git_repo env git_url repo_dir shallow all_branches private_url w =
     (if \<not> is_dir (fs w) repo_dir then
        let cmd = [''git'', ''clone'']
                  @ (if shallow
                     then [''--depth'', ''1'']
                          @ (if all_branches then [''--no-single-branch''] else [])
                     else [])
                  @ [git_url, path_str repo_dir]
        in (case subprocess_run env cmd [] True w of
              (Inl (CalledProcessError rc c), w') \<Rightarrow>
                if private_url
                then die ''cloning repository failed (details omitted for security)'' w'
                else (Inl (CalledProcessError rc c), w')
            | (Inl e, w') \<Rightarrow> (Inl e, w')
            | (Inr _, w') \<Rightarrow> (Inr (), w'))
      else
        andThen (subprocess_run env [''git'', ''symbolic-ref'', ''HEAD''] repo_dir True)
          (\<lambda>(_, out).
        let branch = remove_prefix ''refs/heads/'' (strip out);
            ref = ''refs/remotes/origin/'' @ branch
        in
        andThen (subprocess_run env [''git'', ''fetch''] repo_dir True) (\<lambda>_.
        andThen (subprocess_run env [''git'', ''show-ref'', ref] repo_dir False) (\<lambda>(rc, _).
          if rc = 0
          then andThen (subprocess_run env [''git'', ''reset'', ''--hard'', ref] repo_dir True)
                 (\<lambda>_. ret ())
          else ret ()))) w)"

text \<open>The loop of \<^verbatim>\<open>delete_contents\<close> over the sorted listing, and the function.\<close>

definition delete_entry :: "path \<Rightarrow> string \<Rightarrow> (node, unit) stmt" where
  "delete_entry p name root =
     (if name = ''.git'' then ret () root
      else if is_dir root (p @ [name]) \<and> \<not> is_symlink root (p @ [name])
      then rmtree (p @ [name]) root
      else (case unlink (p @ [name]) root of
              (Inl FileNotFoundError, root') \<Rightarrow> (Inr (), root')
            | r \<Rightarrow> r))"

definition delete_contents :: "path \<Rightarrow> (node, unit) stmt" where
  "delete_contents p root =
     (case iterdir root p of
        Inl e \<Rightarrow> (Inl e, root)
      | Inr names \<Rightarrow> for_each (sort names) (delete_entry p) root)"

record commit_data =
  timestamp :: string
  gnu_elpa_commit :: string
  emacs_commit :: string

definition commit_message :: "string \<Rightarrow> commit_data \<Rightarrow> string" where
  "commit_message message data =
     message @ ''\<newline>\<newline>''
     @ ''Timestamp: '' @ timestamp data @ ''\<newline>''
     @ ''GNU ELPA commit: '' @ gnu_elpa_commit data @ ''\<newline>''
     @ ''Emacs commit: '' @ emacs_commit data"

definition stage_and_commit ::
  "'x env \<Rightarrow> path \<Rightarrow> string \<Rightarrow> commit_data \<Rightarrow> ('x world, unit) stmt" where
  "stage_and_commit env repo_dir message data =
     andThen (subprocess_run env [''git'', ''add'', ''--all'', ''--force''] repo_dir True) (\<lambda>_.
     andThen (subprocess_run env [''git'', ''diff'', ''--cached'', ''--quiet''] repo_dir False)
       (\<lambda>(rc, _).
     let anything_staged = (rc \<noteq> 0) in
     if anything_staged
     then andThen
            (subprocess_run env
               [''git'',
                ''-c'', ''user.name=GNU ELPA Mirror Bot'',
                ''-c'', ''user.email=emacs-devel@gnu.org'',
                ''commit'', ''-m'', commit_message message data]
               repo_dir True)
            (\<lambda>_. ret ())
     else log ''(no changes)''))"

definition GNU_ELPA_GIT_URL :: string where
  "GNU_ELPA_GIT_URL = ''https://git.savannah.gnu.org/git/emacs/elpa.git''"

definition EMACS_GIT_URL :: string where
  "EMACS_GIT_URL = ''https://git.savannah.gnu.org/git/emacs.git''"

definition GNU_ELPA_SUBDIR :: path where
  "GNU_ELPA_SUBDIR = [''gnu-elpa'']"

definition GNU_ELPA_PACKAGES_SUBDIR :: path where
  "GNU_ELPA_PACKAGES_SUBDIR = GNU_ELPA_SUBDIR @ [''packages'']"

definition EMACS_SUBDIR :: path where
  "EMACS_SUBDIR = GNU_ELPA_SUBDIR @ [''emacs'']"

definition REPOS_SUBDIR :: path where
  "REPOS_SUBDIR = [''repos'']"

text \<open>The remote of a mirror repository, with the access token in it.\<close>

definition mirror_url :: "string \<Rightarrow> string \<Rightarrow> string" where
  "mirror_url token name =
     ''https://raxod502:'' @ token @ ''@github.com/emacs-straight/'' @ name @ ''.git''"

text \<open>The blocks of \<^verbatim>\<open>mirror\<close>, in the order of the source. First the time stamp and
  the two commit hashes.\<close>

definition check_commits :: "'x env \<Rightarrow> ('x world, commit_data) stmt" where
  "check_commits env =
     andThen (\<lambda>w. (Inr (now env (outside w)), w)) (\<lambda>ts.
     andThen (subprocess_run env [''git'', ''rev-parse'', ''HEAD''] GNU_ELPA_SUBDIR True)
       (\<lambda>(_, out1).
     andThen (subprocess_run env [''git'', ''rev-parse'', ''HEAD''] EMACS_SUBDIR True)
       (\<lambda>(_, out2).
     ret \<lparr>timestamp = ts, gnu_elpa_commit = strip out1, emacs_commit = strip out2\<rparr>)))"

text \<open>The build script is checked out again (the status of this command is not
  looked at) and patched in place.\<close>

definition install_bugfix :: "'x env \<Rightarrow> ('x world, unit) stmt" where
  \<open>install_bugfix env =
     andThen (subprocess_run env [''git'', ''checkout'', ''admin/archive-contents.el'']
                GNU_ELPA_SUBDIR False) (\<lambda>_.
     andThen (on_fs (read_file (GNU_ELPA_SUBDIR @ [''admin'', ''archive-contents.el''])))
       (\<lambda>contents.
     on_fs (write_file (GNU_ELPA_SUBDIR @ [''admin'', ''archive-contents.el''])
              (replace_str
                 ''(cons file-pattern "")''
                 ''(cons file-pattern (file-name-nondirectory file-pattern))''
                 contents))))\<close>

text \<open>The enumeration of the packages: the loop over the sorted listing, which
  appends a name unless one of its two \<^verbatim>\<open>continue\<close>s is taken.\<close>

fun collect_packages :: "node \<Rightarrow> string list \<Rightarrow> string list \<Rightarrow> string list" where
  "collect_packages root [] packages = packages"
| "collect_packages root (name # rest) packages =
     (if \<not> is_dir root (GNU_ELPA_PACKAGES_SUBDIR @ [name])
      then collect_packages root rest packages
      else if name = ''gnu-elpa-mirror''
      then collect_packages root rest packages
      else collect_packages root rest (packages @ [name]))"

definition list_packages :: "(node, string list) stmt" where
  "list_packages root =
     (case iterdir root GNU_ELPA_PACKAGES_SUBDIR of
        Inl e \<Rightarrow> (Inl e, root)
      | Inr names \<Rightarrow> (Inr (collect_packages root (sort names) []), root))"

text \<open>The body of the loop that creates, clones or updates the mirror of a package.\<close>

definition clone_mirror ::
  "'x env \<Rightarrow> string \<Rightarrow> string list \<Rightarrow> string list \<Rightarrow> string \<Rightarrow> ('x world, unit) stmt" where
  "clone_mirror env token args existing_repos package =
     (let git_url = mirror_url token package;
          repo_dir = REPOS_SUBDIR @ [package]
      in
      andThen
        (if package \<notin> set existing_repos
         then andThen (log (''----> create mirror repository '' @ package)) (\<lambda>_.
              on_outside (create_repo env token package
                (''Mirror of the '' @ package @ '' package from GNU ELPA'')
                (''https://elpa.gnu.org/packages/'' @ package @ ''.html'')))
         else ret ()) (\<lambda>_ w.
      if ''--skip-mirror-pulls'' \<in> set args \<and> is_dir (fs w) repo_dir
      then ret () w
      else andThen (log (''----> clone/update mirror repository '' @ package)) (\<lambda>_.
           clone_git_repo env git_url repo_dir True False True) w))"

text \<open>The copy of the upstream directory into the emptied mirror, entry by entry.\<close>

definition copy_entry :: "path \<Rightarrow> path \<Rightarrow> string \<Rightarrow> (node, unit) stmt" where
  "copy_entry package_dir repo_dir name root =
     (if name = ''.git'' then ret () root
      else
        let source = package_dir @ [name];
            target = repo_dir @ [name]
        in if is_dir root source \<and> \<not> is_symlink root source
           then copytree source target root
           else copyfile source target root)"

definition copy_contents :: "path \<Rightarrow> path \<Rightarrow> (node, unit) stmt" where
  "copy_contents package_dir repo_dir root =
     (case iterdir root package_dir of
        Inl e \<Rightarrow> (Inl e, root)
      | Inr names \<Rightarrow> for_each (sort names) (copy_entry package_dir repo_dir) root)"

definition update_package :: "'x env \<Rightarrow> commit_data \<Rightarrow> string \<Rightarrow> ('x world, unit) stmt" where
  "update_package env data package =
     andThen (log (''----> update package '' @ package)) (\<lambda>_.
     let package_dir = GNU_ELPA_PACKAGES_SUBDIR @ [package];
         repo_dir = REPOS_SUBDIR @ [package]
     in
     andThen (on_fs (delete_contents repo_dir)) (\<lambda>_.
     andThen (on_fs (copy_contents package_dir repo_dir)) (\<lambda>_.
     stage_and_commit env repo_dir (''Update '' @ package) data)))"

definition push_package :: "'x env \<Rightarrow> string \<Rightarrow> ('x world, unit) stmt" where
  "push_package env package =
     andThen (log (''----> push changes to package '' @ package)) (\<lambda>_.
     andThen (subprocess_run env [''git'', ''push'', ''origin'', ''master'']
                (REPOS_SUBDIR @ [package]) True) (\<lambda>_.
     ret ()))"

text \<open>The mirror list repository: one empty file for each package.\<close>

definition write_mirror_list :: "path \<Rightarrow> string list \<Rightarrow> (node, unit) stmt" where
  "write_mirror_list repo_dir packages =
     for_each packages (\<lambda>package. write_file (repo_dir @ [package]) [])"

definition update_mirror_list ::
  "'x env \<Rightarrow> string \<Rightarrow> string list \<Rightarrow> string list \<Rightarrow> commit_data \<Rightarrow> ('x world, unit) stmt" where
  "update_mirror_list env token existing_repos packages data =
     (let git_url = mirror_url token ''gnu-elpa-mirror'';
          repo_dir = REPOS_SUBDIR @ [''gnu-elpa-mirror'']
      in
      andThen
        (if ''gnu-elpa-mirror'' \<notin> set existing_repos
         then andThen (log ''--> create mirror list repository'') (\<lambda>_.
              on_outside (create_repo env token ''gnu-elpa-mirror''
                ''List packages mirrored from GNU ELPA''
                ''https://elpa.gnu.org/packages/''))
         else ret ()) (\<lambda>_.
      andThen (log ''--> clone/update mirror list repository'') (\<lambda>_.
      andThen (clone_git_repo env git_url repo_dir True False True) (\<lambda>_.
      andThen (log ''--> update mirror list repository'') (\<lambda>_.
      andThen (on_fs (delete_contents repo_dir)) (\<lambda>_.
      andThen (on_fs (write_mirror_list repo_dir packages)) (\<lambda>_.
      andThen (stage_and_commit env repo_dir ''Update mirror list'' data) (\<lambda>_.
      andThen (log ''--> push changes to mirror list repository'') (\<lambda>_.
      andThen (subprocess_run env [''git'', ''push'', ''origin'', ''master''] repo_dir True)
        (\<lambda>_.
      ret ()))))))))))"

definition mirror :: "'x env \<Rightarrow> string \<Rightarrow> string list \<Rightarrow> ('x world, unit) stmt" where
  "mirror env token args =
     andThen (log ''--> clone/update GNU ELPA'') (\<lambda>_.
     andThen (clone_git_repo env GNU_ELPA_GIT_URL GNU_ELPA_SUBDIR False True False) (\<lambda>_.
     andThen (log ''--> clone/update Emacs'') (\<lambda>_.
     andThen (clone_git_repo env EMACS_GIT_URL EMACS_SUBDIR False False False) (\<lambda>_.
     andThen (log ''--> check timestamp and commit hashes'') (\<lambda>_.
     andThen (check_commits env) (\<lambda>data.
     andThen (log ''--> install bugfix in GNU ELPA build script'') (\<lambda>_.
     andThen (install_bugfix env) (\<lambda>_.
     andThen (log ''--> retrieve/update GNU ELPA external packages'') (\<lambda>_.
     andThen (subprocess_run env [''make'', ''externals''] GNU_ELPA_SUBDIR True) (\<lambda>_.
     andThen (log ''--> get list of mirror repositories'') (\<lambda>_.
     andThen (on_outside (get_repos env token)) (\<lambda>existing_repos.
     andThen (on_fs list_packages) (\<lambda>packages.
     andThen (log ''--> clone/update mirror repositories'') (\<lambda>_.
     andThen (on_outside (get_organization env token)) (\<lambda>_.
     andThen (on_fs (mkdir_exist_ok REPOS_SUBDIR)) (\<lambda>_.
     andThen (for_each packages (clone_mirror env token args existing_repos)) (\<lambda>_.
     andThen (log ''--> update mirrored packages'') (\<lambda>_.
     andThen (for_each packages (update_package env data)) (\<lambda>_.
     andThen
       (if ''--skip-mirror-pushes'' \<notin> set args
        then andThen (log ''--> push changes to mirrored packages'') (\<lambda>_.
             for_each packages (push_package env))
        else ret ()) (\<lambda>_.
     update_mirror_list env token existing_repos packages data))))))))))))))))))))"

text \<open>The module itself: the access token is read from the environment, and
  \<^verbatim>\<open>mirror\<close> is called with the command-line arguments.\<close>

definition script :: "'x env \<Rightarrow> string option \<Rightarrow> string list \<Rightarrow> ('x world, unit) stmt" where
  "script env access_token args =
     (case access_token of
        None \<Rightarrow> die ''please export ACCESS_TOKEN to a valid GitHub API token''
      | Some token \<Rightarrow> mirror env token args)"

section \<open>What is observed of a directory and of a run\<close>

subsection \<open>Directories\<close>

text \<open>The entries of the directory a path reaches (through links, as \<^verbatim>\<open>iterdir\<close>
  reaches it), and two paths none of which lies below the other.\<close>

definition listing :: "node \<Rightarrow> path \<Rightarrow> entries option" where
  "listing root p = (case stat root p of Some (Dir es) \<Rightarrow> Some es | _ \<Rightarrow> None)"

definition disjoint_from :: "path \<Rightarrow> path \<Rightarrow> bool" where
  "disjoint_from p q \<longleftrightarrow> \<not> prefix p q \<and> \<not> prefix q p"

text \<open>A tree without a symbolic link at any depth.\<close>

fun no_links :: "node \<Rightarrow> bool" where
  "no_links (File c) = True"
| "no_links (Symlink t x) = False"
| "no_links (Dir es) = (\<forall>(k, m) \<in> set es. no_links m)"

text \<open>
  What the copy loop of \<^verbatim>\<open>mirror\<close> leaves at the destination for one upstream entry:
  a real directory goes through \<^verbatim>\<open>copytree\<close>, everything else through
  \<^verbatim>\<open>copyfile\<close>, which succeeds only when the entry is, or leads to, a regular file.
\<close>

definition arrives :: "node \<Rightarrow> node option" where
  "arrives n =
     (case n of
        Dir es \<Rightarrow> copied n
      | _ \<Rightarrow> (case follow n of Some (File c) \<Rightarrow> Some (File c) | _ \<Rightarrow> None))"

subsection \<open>Runs\<close>

text \<open>The processes a statement starts from a world, the lines it prints there, and
  the exception it ends with.\<close>

definition started :: "('x world, 'a) stmt \<Rightarrow> 'x world \<Rightarrow> invocation list" where
  "started m w = drop (length (trace w)) (trace (snd (m w)))"

definition printed :: "('x world, 'a) stmt \<Rightarrow> 'x world \<Rightarrow> string list" where
  "printed m w = drop (length (stderr w)) (stderr (snd (m w)))"

fun raised :: "error + 'a \<Rightarrow> error option" where
  "raised (Inl e) = Some e"
| "raised (Inr _) = None"

text \<open>
  A property of what a piece of the script adds to the world: the processes started, the
  lines printed, the exception raised. It is \<open>composable\<close> when doing nothing has it and
  when it passes from a piece that returned and the piece after it to the two in
  sequence; \<open>runs G m\<close> says that the statement \<open>m\<close> has it from every world.
\<close>

type_synonym outcome = "invocation list \<Rightarrow> string list \<Rightarrow> error option \<Rightarrow> bool"

definition composable :: "outcome \<Rightarrow> bool" where
  "composable G \<longleftrightarrow>
     (\<forall>lines e. G [] lines e)
   \<and> (\<forall>xs ys l1 l2 e. G xs l1 None \<longrightarrow> G ys l2 e \<longrightarrow> G (xs @ ys) (l1 @ l2) e)"

definition runs :: "outcome \<Rightarrow> ('x world, 'a) stmt \<Rightarrow> bool" where
  "runs G m \<longleftrightarrow>
     (\<forall>w r w'. m w = (r, w') \<longrightarrow>
        (\<exists>new lines. trace w' = trace w @ new \<and> stderr w' = stderr w @ lines
                      \<and> G new lines (raised r)))"

subsection \<open>The command lines of the script\<close>

text \<open>The command line of a commit, and the shapes of all the command lines the script
  writes, each with the \<^verbatim>\<open>check\<close> it passes. The last shape is a push, which under
  \<^verbatim>\<open>--skip-mirror-pushes\<close> runs in the mirror list repository only.\<close>

definition commit_argv :: "string \<Rightarrow> commit_data \<Rightarrow> string list" where
  "commit_argv message data =
     [''git'', ''-c'', ''user.name=GNU ELPA Mirror Bot'', ''-c'', ''user.email=emacs-devel@gnu.org'',
      ''commit'', ''-m'', commit_message message data]"

definition script_call :: "string list \<Rightarrow> commit_data \<Rightarrow> invocation \<Rightarrow> bool" where
  "script_call args data i \<longleftrightarrow>
     (take 2 (argv i) = [''git'', ''clone''] \<and> ''commit'' \<notin> set (argv i)
        \<and> ''push'' \<notin> set (argv i) \<and> check i)
   \<or> (argv i \<in> {[''git'', ''symbolic-ref'', ''HEAD''], [''git'', ''fetch''],
                   [''git'', ''rev-parse'', ''HEAD''], [''make'', ''externals''],
                   [''git'', ''add'', ''--all'', ''--force'']} \<and> check i)
   \<or> (\<exists>ref. argv i = [''git'', ''show-ref'', ''refs/remotes/origin/'' @ ref] \<and> \<not> check i)
   \<or> (\<exists>ref. argv i = [''git'', ''reset'', ''--hard'', ''refs/remotes/origin/'' @ ref] \<and> check i)
   \<or> (argv i = [''git'', ''checkout'', ''admin/archive-contents.el''] \<and> \<not> check i)
   \<or> (argv i = [''git'', ''diff'', ''--cached'', ''--quiet''] \<and> \<not> check i)
   \<or> (\<exists>message. (message = ''Update mirror list'' \<or> (\<exists>package. message = ''Update '' @ package))
          \<and> argv i = commit_argv message data \<and> check i)
   \<or> (argv i = [''git'', ''push'', ''origin'', ''master''] \<and> check i
        \<and> (''--skip-mirror-pushes'' \<in> set args \<longrightarrow> cwd i = REPOS_SUBDIR @ [''gnu-elpa-mirror'']))"

text \<open>A checked process that fails is the last one, and the run ends with its
  \<^verbatim>\<open>CalledProcessError\<close> or with the \<^verbatim>\<open>sys.exit(1)\<close> of \<^verbatim>\<open>die\<close>.\<close>

definition orderly :: "invocation list \<Rightarrow> error option \<Rightarrow> bool" where
  "orderly new e \<longleftrightarrow>
     (\<forall>i\<in>set (butlast new). check i \<longrightarrow> returncode i = 0)
   \<and> (\<forall>i\<in>set new. check i \<and> returncode i \<noteq> 0 \<longrightarrow>
        e = Some (CalledProcessError (returncode i) (argv i)) \<or> e = Some (SystemExit 1))"

text \<open>A failed clone from a remote that carries the access token, and what the run
  shows of it: the exit through \<^verbatim>\<open>die\<close> and its last line.\<close>

definition clone_failed :: "string \<Rightarrow> invocation \<Rightarrow> bool" where
  "clone_failed token i \<longleftrightarrow>
     take 2 (argv i) = [''git'', ''clone''] \<and> (\<exists>name. mirror_url token name \<in> set (argv i))
   \<and> check i \<and> returncode i \<noteq> 0"

definition discreet :: "string \<Rightarrow> invocation list \<Rightarrow> string list \<Rightarrow> error option \<Rightarrow> bool" where
  "discreet token new lines e \<longleftrightarrow>
     (new \<noteq> [] \<and> clone_failed token (last new) \<longrightarrow>
        e = Some (SystemExit 1) \<and> lines \<noteq> []
      \<and> last lines = ''gnu_elpa_mirror: cloning repository failed (details omitted for security)'')"

definition run_inv :: "string \<Rightarrow> string list \<Rightarrow> commit_data \<Rightarrow> outcome" where
  "run_inv token args data new lines e \<longleftrightarrow>
     (\<forall>i\<in>set new. script_call args data i) \<and> orderly new e \<and> discreet token new lines e"

text \<open>\<^verbatim>\<open>mirror\<close> in two parts: up to the commit data, and from there on.\<close>

definition mirror_head :: "'x env \<Rightarrow> ('x world, commit_data) stmt" where
  "mirror_head env =
     andThen (log ''--> clone/update GNU ELPA'') (\<lambda>_.
     andThen (clone_git_repo env GNU_ELPA_GIT_URL GNU_ELPA_SUBDIR False True False) (\<lambda>_.
     andThen (log ''--> clone/update Emacs'') (\<lambda>_.
     andThen (clone_git_repo env EMACS_GIT_URL EMACS_SUBDIR False False False) (\<lambda>_.
     andThen (log ''--> check timestamp and commit hashes'') (\<lambda>_.
     check_commits env)))))"

definition mirror_rest ::
  "'x env \<Rightarrow> string \<Rightarrow> string list \<Rightarrow> commit_data \<Rightarrow> ('x world, unit) stmt" where
  "mirror_rest env token args data =
     andThen (log ''--> install bugfix in GNU ELPA build script'') (\<lambda>_.
     andThen (install_bugfix env) (\<lambda>_.
     andThen (log ''--> retrieve/update GNU ELPA external packages'') (\<lambda>_.
     andThen (subprocess_run env [''make'', ''externals''] GNU_ELPA_SUBDIR True) (\<lambda>_.
     andThen (log ''--> get list of mirror repositories'') (\<lambda>_.
     andThen (on_outside (get_repos env token)) (\<lambda>existing_repos.
     andThen (on_fs list_packages) (\<lambda>packages.
     andThen (log ''--> clone/update mirror repositories'') (\<lambda>_.
     andThen (on_outside (get_organization env token)) (\<lambda>_.
     andThen (on_fs (mkdir_exist_ok REPOS_SUBDIR)) (\<lambda>_.
     andThen (for_each packages (clone_mirror env token args existing_repos)) (\<lambda>_.
     andThen (log ''--> update mirrored packages'') (\<lambda>_.
     andThen (for_each packages (update_package env data)) (\<lambda>_.
     andThen
       (if ''--skip-mirror-pushes'' \<notin> set args
        then andThen (log ''--> push changes to mirrored packages'') (\<lambda>_.
             for_each packages (push_package env))
        else ret ()) (\<lambda>_.
     update_mirror_list env token existing_repos packages data))))))))))))))"

subsection \<open>A machine to run the script on\<close>

text \<open>
  Collaborators that do nothing: a command runner that answers every command line with
  the status a table gives and an empty output and touches neither the files nor the
  outside, a clock that stands still, and a hosting service without repositories.
\<close>

definition fake :: "(string list \<Rightarrow> nat) \<Rightarrow> unit env" where
  "fake status =
     \<lparr>exec = (\<lambda>cmd dir (root, x). ((status cmd, []), root, x)),
      now = (\<lambda>_. ''2020-02-02 02:02:02''),
      get_repos = (\<lambda>token. ret []),
      get_organization = (\<lambda>token. ret ()),
      create_repo = (\<lambda>token name description homepage. ret ())\<rparr>"

text \<open>Two tables: one where the three commands run without \<^verbatim>\<open>check\<close> answer 1 and
  all others 0, and one where in addition every clone fails.\<close>

definition lenient :: "string list \<Rightarrow> nat" where
  "lenient cmd =
     (if cmd = [''git'', ''diff'', ''--cached'', ''--quiet''] \<or> take 2 cmd = [''git'', ''show-ref'']
         \<or> take 2 cmd = [''git'', ''checkout'']
      then 1 else 0)"

definition offline :: "string list \<Rightarrow> nat" where
  "offline cmd = (if take 2 cmd = [''git'', ''clone''] then 128 else lenient cmd)"

text \<open>
  A small installation. Upstream there is one package, \<^verbatim>\<open>foo\<close>, with a file, a link to
  that file and a directory that holds a file and a link; beside it a directory of the
  reserved name and a plain file. The mirror of \<^verbatim>\<open>foo\<close> holds what an earlier run left:
  a file, a directory and a link to that directory.
\<close>

definition upstream_foo :: entries where
  "upstream_foo =
     [(''.git'', Dir [(''HEAD'', File ''ref: refs/heads/externals/foo'')]),
      (''foo.el'', File ''(provide (quote foo))''),
      (''README'', Symlink ''foo.el'' (Some (File ''(provide (quote foo))''))),
      (''lisp'', Dir [(''a.el'', File ''a''), (''b.el'', Symlink ''a.el'' (Some (File ''a'')))])]"

definition mirror_foo :: entries where
  "mirror_foo =
     [(''.git'', Dir [(''HEAD'', File ''ref: refs/heads/master'')]),
      (''old.el'', File ''old''),
      (''olddir'', Dir [(''x'', File ''x'')]),
      (''oldlink'', Symlink ''olddir'' (Some (Dir [(''x'', File ''x'')])))]"

definition demo_fs :: node where
  \<open>demo_fs =
     Dir [(''gnu-elpa'',
            Dir [(''admin'', Dir [(''archive-contents.el'', File ''(cons file-pattern "")'')]),
                 (''emacs'', Dir [(''.git'', Dir [])]),
                 (''packages'',
                    Dir [(''gnu-elpa-mirror'', Dir []),
                         (''foo'', Dir upstream_foo),
                         (''README'', File ''packages'')])]),
          (''repos'',
            Dir [(''foo'', Dir mirror_foo),
                 (''gnu-elpa-mirror'', Dir [(''.git'', Dir []), (''bar'', File [])])])]\<close>

definition demo :: "unit world" where
  "demo = \<lparr>fs = demo_fs, outside = (), stderr = [], trace = []\<rparr>"

text \<open>The same installation before the first clone of a mirror.\<close>

definition fresh :: "unit world" where
  "fresh = demo\<lparr>fs := modify_dir [] (AList.delete ''repos'') demo_fs\<rparr>"

definition demo_data :: commit_data where
  "demo_data = \<lparr>timestamp = ''2020-02-02 02:02:02'', gnu_elpa_commit = [], emacs_commit = []\<rparr>"

section \<open>Lemmas on the file system\<close>

lemma follow_not_link: "follow n \<noteq> Some (Symlink t x)"
  by (induction n rule: follow.induct) auto

lemma stat_link [simp]: "stat (Symlink t (Some n)) p = stat n p"
  by (cases p) (simp_all add: stat_def)

lemma stat_dangling [simp]: "stat (Symlink t None) p = None"
  by (cases p) (simp_all add: stat_def)

lemma stat_file [simp]: "stat (File c) p = (if p = [] then Some (File c) else None)"
  by (cases p) (simp_all add: stat_def)

lemma stat_dir_nil [simp]: "stat (Dir es) [] = Some (Dir es)"
  by (simp add: stat_def)

lemma stat_dir_cons [simp]:
  "stat (Dir es) (c # cs) = (case map_of es c of None \<Rightarrow> None | Some m \<Rightarrow> stat m cs)"
  by (simp add: stat_def split: option.splits)

lemma map_of_map_key:
  "map_of (map (\<lambda>(k, m). if k = c then (k, g m) else (k, m)) es) d
     = (if d = c then map_option g (map_of es c) else map_of es d)"
  by (induction es) auto

lemma listing_modify_dir: "listing (modify_dir p f root) p = map_option f (listing root p)"
proof (induction p f root rule: modify_dir.induct)
  case (5 c cs f es)
  show ?case
  proof (cases "map_of es c")
    case None
    then show ?thesis by (simp add: listing_def map_of_map_key)
  next
    case (Some m)
    then have "(c, m) \<in> set es" by (rule map_of_SomeD)
    from 5[OF this] Some show ?thesis
      by (simp add: listing_def map_of_map_key)
  qed
qed (simp_all add: listing_def)

lemma lstat_snoc:
  "lstat root (p @ [name]) = (case listing root p of None \<Rightarrow> None | Some es \<Rightarrow> map_of es name)"
proof (induction p arbitrary: root)
  case Nil
  show ?case
    by (cases "follow root") (auto simp: listing_def stat_def follow_not_link split: node.splits option.splits)
next
  case (Cons c cs)
  show ?case
    by (cases "follow root") (auto simp: Cons listing_def stat_def follow_not_link split: node.splits option.splits)
qed

lemma lstat_modify_dir_other:
  "\<not> prefix p q \<Longrightarrow> \<not> prefix q p \<Longrightarrow> lstat (modify_dir p f root) q = lstat root q"
proof (induction p f root arbitrary: q rule: modify_dir.induct)
  case (3 p f t n)
  from 3(3) obtain d ds where q: "q = d # ds" by (cases q) auto
  from 3(1)[of q] 3(2,3) have "lstat (modify_dir p f n) (d # ds) = lstat n (d # ds)"
    by (simp add: q)
  then show ?case by (simp add: q)
next
  case (5 c cs f es)
  then obtain d ds where q: "q = d # ds" by (cases q) auto
  show ?case
  proof (cases "d = c")
    case False
    then show ?thesis by (simp add: q map_of_map_key)
  next
    case True
    show ?thesis
    proof (cases "map_of es c")
      case None
      then show ?thesis by (simp add: q True map_of_map_key)
    next
      case (Some m)
      then have "(c, m) \<in> set es" by (rule map_of_SomeD)
      have "lstat (modify_dir cs f m) ds = lstat m ds"
        using "5.IH"[OF \<open>(c, m) \<in> set es\<close> refl refl, of ds] 5(2,3) by (simp add: q True)
      with Some show ?thesis
        by (simp add: q True map_of_map_key)
    qed
  qed
qed (auto)


lemma listing_stat: "listing root p = Some es \<longleftrightarrow> stat root p = Some (Dir es)"
  by (auto simp: listing_def split: option.splits node.splits)

lemma lstat_real_dir:
  "is_dir root p \<and> \<not> is_symlink root p \<longleftrightarrow> (\<exists>es. lstat root p = Some (Dir es))"
  by (cases "lstat root p"; cases "the (lstat root p)")
     (auto simp: is_dir_def is_symlink_def stat_def follow_not_link split: option.splits node.splits)




lemma stat_follow: "stat root p = (case lstat root p of None \<Rightarrow> None | Some n \<Rightarrow> follow n)"
  by (simp add: stat_def)

lemma listing_modify_dir_other:
  "disjoint_from p q \<Longrightarrow> listing (modify_dir p f root) q = listing root q"
  by (simp add: listing_def stat_def disjoint_from_def lstat_modify_dir_other)

lemma is_dir_listing: "is_dir root p \<longleftrightarrow> listing root p \<noteq> None"
  by (auto simp: is_dir_def listing_def split: option.splits node.splits)

lemma write_file_listing:
  assumes "listing root d = Some es"
  shows "write_file (d @ [name]) c root =
           (case map_of es name of
              None \<Rightarrow> (Inr (), modify_dir d (\<lambda>es. es @ [(name, File c)]) root)
            | Some n \<Rightarrow>
               (case follow n of
                  Some (Dir _) \<Rightarrow> (Inl IsADirectoryError, root)
                | _ \<Rightarrow> (Inr (), modify_dir d
                            (map (\<lambda>(k, m). if k = name then (k, put_file c m) else (k, m))) root)))"
  using assms
  by (auto simp: write_file_def lstat_snoc is_dir_listing split: option.splits node.splits)

lemma copied_entries_id:
  "\<forall>(k, m) \<in> set es. copied m = Some m \<Longrightarrow>
   concat (map (\<lambda>(k, m). case copied m of None \<Rightarrow> [] | Some m' \<Rightarrow> [(k, m')]) es) = es"
  by (induction es) auto

lemma failures_entries_none:
  "\<forall>(k, m) \<in> set es. failures m = [] \<Longrightarrow>
   concat (map (\<lambda>(k, m). map ((#) k) (failures m)) es) = []"
  by (induction es) auto

lemma no_links_copied: "no_links n \<Longrightarrow> copied n = Some n \<and> failures n = []"
proof (induction n rule: copied.induct)
  case (4 es)
  have *: "\<forall>(k, m) \<in> set es. copied m = Some m \<and> failures m = []"
    using 4 by fastforce
  from * have "\<forall>(k, m) \<in> set es. copied m = Some m" by fastforce
  moreover from * have "\<forall>(k, m) \<in> set es. failures m = []" by fastforce
  ultimately show ?case
    by (simp add: copied_entries_id failures_entries_none)
qed auto

lemma disjoint_from_sym: "disjoint_from p q \<Longrightarrow> disjoint_from q p"
  by (auto simp: disjoint_from_def)

lemma copied_dir: "\<exists>d. copied (Dir es) = Some d"
  by simp

lemma copy_entry_listing:
  assumes us: "listing root pkg = Some us" and ds: "listing root repo = Some ds"
    and dj: "disjoint_from repo pkg"
    and name: "name \<noteq> ''.git''" and fresh: "map_of ds name = None"
    and n: "map_of us name = Some n"
    and ok: "copy_entry pkg repo name root = (Inr (), root')"
  shows "\<exists>m. arrives n = Some m \<and> root' = modify_dir repo (\<lambda>ds. ds @ [(name, m)]) root"
proof -
  have src: "lstat root (pkg @ [name]) = Some n"
    by (simp add: lstat_snoc us n)
  have tgt: "lstat root (repo @ [name]) = None"
    by (simp add: lstat_snoc ds fresh)
  have dir: "is_dir root repo"
    by (simp add: is_dir_listing ds)
  show ?thesis
  proof (cases n)
    case (Dir es)
    with src have "is_dir root (pkg @ [name]) \<and> \<not> is_symlink root (pkg @ [name])"
      by (simp add: lstat_real_dir)
    moreover from src Dir have "stat root (pkg @ [name]) = Some (Dir es)"
      by (simp add: stat_def)
    ultimately show ?thesis using ok name tgt dir Dir
      by (auto simp: copy_entry_def copytree_def arrives_def Let_def split: if_splits)
  next
    case (File c)
    with src have "\<not> (is_dir root (pkg @ [name]) \<and> \<not> is_symlink root (pkg @ [name]))"
      by (simp add: lstat_real_dir)
    moreover from src File have "stat root (pkg @ [name]) = Some (File c)"
      by (simp add: stat_def)
    ultimately show ?thesis using ok name File fresh
      by (auto simp: copy_entry_def copyfile_def arrives_def Let_def write_file_listing[OF ds])
  next
    case (Symlink t x)
    with src have nd: "\<not> (is_dir root (pkg @ [name]) \<and> \<not> is_symlink root (pkg @ [name]))"
      by (simp add: lstat_real_dir)
    from src have st: "stat root (pkg @ [name]) = follow n"
      by (simp add: stat_def)
    show ?thesis
    proof (cases "follow n")
      case None
      with nd st ok name show ?thesis
        by (auto simp: copy_entry_def copyfile_def Let_def)
    next
      case (Some m)
      with nd st ok name Symlink fresh show ?thesis
        by (cases m)
           (auto simp: copy_entry_def copyfile_def arrives_def Let_def write_file_listing[OF ds])
    qed
  qed
qed

lemma copy_entry_total:
  assumes us: "listing root pkg = Some us" and ds: "listing root repo = Some ds"
    and name: "name \<noteq> ''.git''" and fresh: "map_of ds name = None"
    and n: "map_of us name = Some n" and nl: "no_links n"
  shows "\<exists>root'. copy_entry pkg repo name root = (Inr (), root')"
proof -
  have src: "lstat root (pkg @ [name]) = Some n"
    by (simp add: lstat_snoc us n)
  have tgt: "lstat root (repo @ [name]) = None"
    by (simp add: lstat_snoc ds fresh)
  have dir: "is_dir root repo"
    by (simp add: is_dir_listing ds)
  show ?thesis
  proof (cases n)
    case (Dir es)
    with src have "is_dir root (pkg @ [name]) \<and> \<not> is_symlink root (pkg @ [name])"
      by (simp add: lstat_real_dir)
    moreover from src Dir have "stat root (pkg @ [name]) = Some (Dir es)"
      by (simp add: stat_def)
    moreover from nl Dir have "failures (Dir es) = []"
      using no_links_copied by blast
    ultimately show ?thesis using name tgt dir Dir
      by (auto simp: copy_entry_def copytree_def Let_def simp del: failures.simps)
  next
    case (File c)
    with src have "\<not> (is_dir root (pkg @ [name]) \<and> \<not> is_symlink root (pkg @ [name]))"
      by (simp add: lstat_real_dir)
    moreover from src File have "stat root (pkg @ [name]) = Some (File c)"
      by (simp add: stat_def)
    ultimately show ?thesis using name File fresh
      by (auto simp: copy_entry_def copyfile_def Let_def write_file_listing[OF ds])
  next
    case (Symlink t x)
    with nl show ?thesis by simp
  qed
qed

lemma andThen_Inr:
  "andThen m f s = (Inr b, s') \<longleftrightarrow> (\<exists>a s1. m s = (Inr a, s1) \<and> f a s1 = (Inr b, s'))"
  by (auto simp: andThen_def split: prod.splits sum.splits)

lemma copy_loop:
  assumes "listing root pkg = Some us" and "listing root repo = Some ds"
    and "disjoint_from repo pkg" and "distinct ns"
    and "\<forall>k\<in>set ns. k \<noteq> ''.git'' \<longrightarrow> map_of ds k = None \<and> map_of us k \<noteq> None"
    and "for_each ns (copy_entry pkg repo) root = (Inr (), root')"
  shows "listing root' pkg = Some us
       \<and> listing root' repo =
           Some (ds @ map (\<lambda>k. (k, the (arrives (the (map_of us k))))) (filter (\<lambda>k. k \<noteq> ''.git'') ns))
       \<and> (\<forall>k\<in>set ns. k \<noteq> ''.git'' \<longrightarrow> arrives (the (map_of us k)) \<noteq> None)
       \<and> (\<forall>q. disjoint_from repo q \<longrightarrow> lstat root' q = lstat root q)"
  using assms
proof (induction ns arbitrary: root ds)
  case Nil
  then show ?case by (simp add: ret_def)
next
  case (Cons n ns)
  from Cons.prems(6) obtain r1 where
    r1: "copy_entry pkg repo n root = (Inr (), r1)"
    and rest: "for_each ns (copy_entry pkg repo) r1 = (Inr (), root')"
    by (auto simp: andThen_Inr)
  show ?case
  proof (cases "n = ''.git''")
    case True
    with r1 have "r1 = root" by (simp add: copy_entry_def ret_def)
    with Cons.IH[OF Cons.prems(1,2,3)] Cons.prems(4,5) rest True show ?thesis
      by simp
  next
    case False
    with Cons.prems(5) obtain nd where nd: "map_of us n = Some nd" and fresh: "map_of ds n = None"
      by auto
    from copy_entry_listing[OF Cons.prems(1,2,3) False fresh nd r1] obtain m where
      m: "arrives nd = Some m" "r1 = modify_dir repo (\<lambda>ds. ds @ [(n, m)]) root"
      by blast
    have l1: "listing r1 pkg = Some us"
      using Cons.prems(1,3) by (simp add: m listing_modify_dir_other)
    have l2: "listing r1 repo = Some (ds @ [(n, m)])"
      using Cons.prems(2) by (simp add: m listing_modify_dir)
    have fr: "\<forall>k\<in>set ns. k \<noteq> ''.git'' \<longrightarrow> map_of (ds @ [(n, m)]) k = None \<and> map_of us k \<noteq> None"
      using Cons.prems(4,5) by (auto simp: map_add_def split: option.splits)
    have d: "distinct ns" using Cons.prems(4) by simp
    have fr1: "\<forall>q. disjoint_from repo q \<longrightarrow> lstat r1 q = lstat root q"
      by (simp add: m disjoint_from_def lstat_modify_dir_other)
    from Cons.IH[OF l1 l2 Cons.prems(3) d fr rest] fr1 False nd m show ?thesis
      by simp
  qed
qed

lemma copy_loop_total:
  assumes "listing root pkg = Some us" and "listing root repo = Some ds"
    and "disjoint_from repo pkg" and "distinct ns"
    and "\<forall>k\<in>set ns. k \<noteq> ''.git'' \<longrightarrow> map_of ds k = None \<and> map_of us k \<noteq> None"
    and "\<forall>k\<in>set ns. k \<noteq> ''.git'' \<longrightarrow> no_links (the (map_of us k))"
  shows "\<exists>root'. for_each ns (copy_entry pkg repo) root = (Inr (), root')"
  using assms
proof (induction ns arbitrary: root ds)
  case Nil
  then show ?case by (simp add: ret_def)
next
  case (Cons n ns)
  show ?case
  proof (cases "n = ''.git''")
    case True
    then have "copy_entry pkg repo n root = (Inr (), root)" by (simp add: copy_entry_def ret_def)
    with Cons.IH[OF Cons.prems(1,2,3)] Cons.prems(4,5,6) show ?thesis
      by (simp add: andThen_def)
  next
    case False
    with Cons.prems(5) obtain nd where nd: "map_of us n = Some nd" and fresh: "map_of ds n = None"
      by auto
    from Cons.prems(6) False nd have nl: "no_links nd" by simp
    from copy_entry_total[OF Cons.prems(1,2) False fresh nd nl] obtain r1 where
      r1: "copy_entry pkg repo n root = (Inr (), r1)" by blast
    from copy_entry_listing[OF Cons.prems(1,2,3) False fresh nd r1] obtain m where
      m: "arrives nd = Some m" "r1 = modify_dir repo (\<lambda>ds. ds @ [(n, m)]) root"
      by blast
    have l1: "listing r1 pkg = Some us"
      using Cons.prems(1,3) by (simp add: m listing_modify_dir_other)
    have l2: "listing r1 repo = Some (ds @ [(n, m)])"
      using Cons.prems(2) by (simp add: m listing_modify_dir)
    have fr: "\<forall>k\<in>set ns. k \<noteq> ''.git'' \<longrightarrow> map_of (ds @ [(n, m)]) k = None \<and> map_of us k \<noteq> None"
      using Cons.prems(4,5) by (auto simp: map_add_def split: option.splits)
    have d: "distinct ns" using Cons.prems(4) by simp
    have nls: "\<forall>k\<in>set ns. k \<noteq> ''.git'' \<longrightarrow> no_links (the (map_of us k))"
      using Cons.prems(6) by simp
    from Cons.IH[OF l1 l2 Cons.prems(3) d fr nls] r1 show ?thesis
      by (simp add: andThen_def)
  qed
qed

section \<open>Lemmas on runs\<close>

lemma runsD:
  "runs G m \<Longrightarrow> m w = (r, w') \<Longrightarrow>
   \<exists>new lines. trace w' = trace w @ new \<and> stderr w' = stderr w @ lines \<and> G new lines (raised r)"
  unfolding runs_def by blast

lemma runs_ret: "composable G \<Longrightarrow> runs G (ret a)"
  by (simp add: runs_def ret_def composable_def)

lemma runs_raise: "composable G \<Longrightarrow> runs G (raise e)"
  by (simp add: runs_def raise_def composable_def)

lemma runs_log: "composable G \<Longrightarrow> runs G (log s)"
  by (auto simp: runs_def log_def composable_def)

lemma runs_on_fs: "composable G \<Longrightarrow> runs G (on_fs m)"
  by (auto simp: runs_def on_fs_def composable_def split: prod.splits)

lemma runs_on_outside: "composable G \<Longrightarrow> runs G (on_outside m)"
  by (auto simp: runs_def on_outside_def composable_def split: prod.splits)

lemma runs_pure: "composable G \<Longrightarrow> runs G (\<lambda>w. (r w, w))"
  by (auto simp: runs_def composable_def)

lemma runs_andThen:
  assumes "composable G" and "runs G m" and "\<And>a. runs G (f a)"
  shows "runs G (andThen m f)"
  unfolding runs_def
proof (intro allI impI)
  fix w r w'
  assume run: "andThen m f w = (r, w')"
  obtain r1 w1 where m: "m w = (r1, w1)" by (cases "m w")
  from runsD[OF assms(2) m] obtain n1 l1 where
    n1: "trace w1 = trace w @ n1" "stderr w1 = stderr w @ l1" "G n1 l1 (raised r1)"
    by blast
  show "\<exists>new lines. trace w' = trace w @ new \<and> stderr w' = stderr w @ lines \<and> G new lines (raised r)"
  proof (cases r1)
    case (Inl e)
    with run m n1 show ?thesis by (auto simp: andThen_def)
  next
    case (Inr a)
    with run m have "f a w1 = (r, w')" by (simp add: andThen_def)
    from runsD[OF assms(3) this] obtain n2 l2 where
      n2: "trace w' = trace w1 @ n2" "stderr w' = stderr w1 @ l2" "G n2 l2 (raised r)"
      by blast
    from n1 Inr n2 assms(1) have "G (n1 @ n2) (l1 @ l2) (raised r)"
      by (simp add: composable_def)
    with n1 n2 show ?thesis by simp
  qed
qed

lemma runs_for_each:
  assumes "composable G" and "\<And>x. x \<in> set xs \<Longrightarrow> runs G (body x)"
  shows "runs G (for_each xs body)"
  using assms(2)
  by (induction xs) (simp_all add: runs_ret runs_andThen assms(1))

lemma runs_if: "(c \<Longrightarrow> runs G m) \<Longrightarrow> (\<not> c \<Longrightarrow> runs G n) \<Longrightarrow> runs G (if c then m else n)"
  by simp

lemma runs_cond: "runs G m \<Longrightarrow> runs G n \<Longrightarrow> runs G (\<lambda>w. if c w then m w else n w)"
  by (auto simp: runs_def)

lemma runs_case_prod: "(\<And>a b. runs G (f a b)) \<Longrightarrow> runs G (case_prod f p)"
  by (cases p) simp

lemma runs_die: "composable G \<Longrightarrow> runs G (die s)"
  by (simp add: die_def runs_andThen runs_log runs_raise)

lemma subprocess_run_cases:
  assumes "subprocess_run env cmd dir chk w = (r, w')"
  obtains rc where
    "trace w' = trace w @ [\<lparr>argv = cmd, cwd = dir, check = chk, returncode = rc\<rparr>]"
    and "stderr w' = stderr w"
    and "raised r = (if chk \<and> rc \<noteq> 0 then Some (CalledProcessError rc cmd) else None)"
proof -
  obtain rc out root x where e: "exec env cmd dir (fs w, outside w) = ((rc, out), root, x)"
    by (metis prod.exhaust)
  with assms have "trace w' = trace w @ [\<lparr>argv = cmd, cwd = dir, check = chk, returncode = rc\<rparr>]"
    and "stderr w' = stderr w"
    and "raised r = (if chk \<and> rc \<noteq> 0 then Some (CalledProcessError rc cmd) else None)"
    by (auto simp: subprocess_run_def Let_def split: if_splits)
  then show thesis by (rule that)
qed

lemma runs_subprocess_run:
  assumes "\<And>rc. G [\<lparr>argv = cmd, cwd = dir, check = chk, returncode = rc\<rparr>] []
                 (if chk \<and> rc \<noteq> 0 then Some (CalledProcessError rc cmd) else None)"
  shows "runs G (subprocess_run env cmd dir chk)"
  unfolding runs_def
proof (intro allI impI)
  fix w r w'
  assume "subprocess_run env cmd dir chk w = (r, w')"
  then show "\<exists>new lines. trace w' = trace w @ new \<and> stderr w' = stderr w @ lines \<and> G new lines (raised r)"
    using assms by (elim subprocess_run_cases) auto
qed

lemma orderly_None: "orderly xs None \<Longrightarrow> i \<in> set xs \<Longrightarrow> check i \<Longrightarrow> returncode i = 0"
  by (auto simp: orderly_def)

lemma composable_run_inv: "composable (run_inv token args data)"
  unfolding composable_def
proof (intro conjI allI impI)
  fix lines e
  show "run_inv token args data [] lines e"
    by (simp add: run_inv_def orderly_def discreet_def)
next
  fix xs ys l1 l2 e
  assume x: "run_inv token args data xs l1 None" and y: "run_inv token args data ys l2 e"
  from x have xo: "\<And>i. i \<in> set xs \<Longrightarrow> check i \<Longrightarrow> returncode i = 0"
    by (auto simp: run_inv_def dest: orderly_None)
  have "orderly (xs @ ys) e"
    using xo y by (auto simp: run_inv_def orderly_def butlast_append dest: in_set_butlastD)
  moreover have "discreet token (xs @ ys) (l1 @ l2) e"
  proof (cases "ys = []")
    case True
    then show ?thesis using xo[of "last xs"] by (auto simp: discreet_def clone_failed_def)
  next
    case False
    then show ?thesis using y by (auto simp: run_inv_def discreet_def)
  qed
  ultimately show "run_inv token args data (xs @ ys) (l1 @ l2) e"
    using x y by (auto simp: run_inv_def)
qed

lemma run_inv_single:
  assumes "script_call args data \<lparr>argv = cmd, cwd = dir, check = chk, returncode = rc\<rparr>"
    and "take 2 cmd \<noteq> [''git'', ''clone'']"
  shows "run_inv token args data [\<lparr>argv = cmd, cwd = dir, check = chk, returncode = rc\<rparr>] []
           (if chk \<and> rc \<noteq> 0 then Some (CalledProcessError rc cmd) else None)"
  using assms by (auto simp: run_inv_def orderly_def discreet_def clone_failed_def)

lemmas runs_inv =
  runs_ret[OF composable_run_inv] runs_raise[OF composable_run_inv] runs_log[OF composable_run_inv]
  runs_on_fs[OF composable_run_inv] runs_on_outside[OF composable_run_inv] runs_pure[OF composable_run_inv]
  runs_die[OF composable_run_inv]

lemma runs_call:
  "(\<And>rc. script_call args data \<lparr>argv = cmd, cwd = dir, check = chk, returncode = rc\<rparr>)
   \<Longrightarrow> take 2 cmd \<noteq> [''git'', ''clone'']
   \<Longrightarrow> runs (run_inv token args data) (subprocess_run env cmd dir chk)"
  by (rule runs_subprocess_run) (rule run_inv_single)

lemmas runs_rules =
  runs_andThen[OF composable_run_inv] runs_for_each[OF composable_run_inv] runs_case_prod runs_if runs_inv

lemma mirror_url_neq [simp]:
  "mirror_url token name \<noteq> ''git''" "mirror_url token name \<noteq> ''clone''"
  "mirror_url token name \<noteq> ''--depth''" "mirror_url token name \<noteq> ''1''"
  "mirror_url token name \<noteq> ''--no-single-branch''" "mirror_url token name \<noteq> ''commit''"
  "mirror_url token name \<noteq> ''push''"
  by (simp_all add: mirror_url_def)

lemma runs_clone_git_repo:
  assumes url: "git_url \<noteq> ''commit''" "git_url \<noteq> ''push''"
    and dir: "path_str repo_dir \<noteq> ''commit''" "path_str repo_dir \<noteq> ''push''"
    and priv: "\<And>name. git_url = mirror_url token name \<Longrightarrow> private_url"
    and dir': "\<And>name. path_str repo_dir \<noteq> mirror_url token name"
  shows "runs (run_inv token args data)
           (clone_git_repo (env :: 'x env) git_url repo_dir shallow all_branches private_url)"
  unfolding runs_def
proof (intro allI impI)
  fix w w' :: "'x world" and r :: "error + unit"
  let ?G = "run_inv token args data"
  let ?goal = "\<exists>new lines. trace w' = trace w @ new \<and> stderr w' = stderr w @ lines
                 \<and> ?G new lines (raised r)"
  assume run: "clone_git_repo env git_url repo_dir shallow all_branches private_url w = (r, w')"
  show ?goal
  proof (cases "is_dir (fs w) repo_dir")
    case False
    let ?cmd = "[''git'', ''clone'']
                  @ (if shallow
                     then [''--depth'', ''1'']
                          @ (if all_branches then [''--no-single-branch''] else [])
                     else [])
                  @ [git_url, path_str repo_dir]"
    obtain r1 w1 where s: "subprocess_run env ?cmd [] True w = (r1, w1)"
      by (metis prod.exhaust)
    then obtain rc where
      t1: "trace w1 = trace w @ [\<lparr>argv = ?cmd, cwd = [], check = True, returncode = rc\<rparr>]"
      and l1: "stderr w1 = stderr w"
      and e1: "raised r1 = (if True \<and> rc \<noteq> 0 then Some (CalledProcessError rc ?cmd) else None)"
      by (rule subprocess_run_cases)
    let ?i = "\<lparr>argv = ?cmd, cwd = [], check = True, returncode = rc\<rparr>"
    have call: "script_call args data ?i"
      using url dir by (auto simp: script_call_def)
    have pv: "clone_failed token ?i \<Longrightarrow> private_url"
      using priv dir' dir'[symmetric] by (auto simp: clone_failed_def split: if_splits)
    show ?thesis
    proof (cases "rc = 0")
      case True
      with e1 obtain a where "r1 = Inr a" by (cases r1) auto
      with run False s have "r = Inr ()" "w' = w1"
        by (simp_all add: clone_git_repo_def Let_def)
      moreover have "?G [?i] [] None"
        using call True by (auto simp: run_inv_def orderly_def discreet_def clone_failed_def)
      ultimately show ?thesis using t1 l1 by auto
    next
      case rc: False
      with e1 have r1: "r1 = Inl (CalledProcessError rc ?cmd)" by (cases r1) auto
      show ?thesis
      proof (cases private_url)
        case True
        with run False s r1 have "r = Inl (SystemExit 1)"
          and "trace w' = trace w1"
          and "stderr w' = stderr w1
                 @ [''gnu_elpa_mirror: cloning repository failed (details omitted for security)'']"
          by (auto simp: clone_git_repo_def Let_def die_def andThen_def log_def raise_def)
        moreover have "?G [?i]
            [''gnu_elpa_mirror: cloning repository failed (details omitted for security)'']
            (Some (SystemExit 1))"
          using call by (auto simp: run_inv_def orderly_def discreet_def)
        ultimately show ?thesis using t1 l1 by auto
      next
        case np: False
        with run False s r1 have "r = Inl (CalledProcessError rc ?cmd)" "w' = w1"
          by (auto simp: clone_git_repo_def Let_def)
        moreover have "?G [?i] [] (Some (CalledProcessError rc ?cmd))"
          using call pv np by (auto simp: run_inv_def orderly_def discreet_def)
        ultimately show ?thesis using t1 l1 by auto
      qed
    qed
  next
    case True
    have upd: "runs ?G
        (andThen (subprocess_run env [''git'', ''symbolic-ref'', ''HEAD''] repo_dir True)
          (\<lambda>(_, out).
        let branch = remove_prefix ''refs/heads/'' (strip out);
            ref = ''refs/remotes/origin/'' @ branch
        in
        andThen (subprocess_run env [''git'', ''fetch''] repo_dir True) (\<lambda>_.
        andThen (subprocess_run env [''git'', ''show-ref'', ref] repo_dir False) (\<lambda>(rc, _).
          if rc = 0
          then andThen (subprocess_run env [''git'', ''reset'', ''--hard'', ref] repo_dir True)
                 (\<lambda>_. ret ())
          else ret ()))))"
      unfolding Let_def
      by (intro runs_rules runs_call) (simp_all add: script_call_def)
    from run True show ?thesis
      by (intro runsD[OF upd]) (simp add: clone_git_repo_def)
  qed
qed

lemma path_str_repos [simp]: "path_str (REPOS_SUBDIR @ [p]) = ''repos/'' @ p"
  by (simp add: REPOS_SUBDIR_def)

lemma runs_stage_and_commit:
  "message = ''Update mirror list'' \<or> (\<exists>package. message = ''Update '' @ package)
   \<Longrightarrow> runs (run_inv token args data) (stage_and_commit env repo_dir message data)"
  unfolding stage_and_commit_def Let_def
  by (intro runs_rules runs_call) (auto simp: script_call_def commit_argv_def)

lemma runs_check_commits: "runs (run_inv token args data) (check_commits env)"
  unfolding check_commits_def
  by (intro runs_rules runs_call) (simp_all add: script_call_def)

lemma runs_install_bugfix: "runs (run_inv token args data) (install_bugfix env)"
  unfolding install_bugfix_def
  by (intro runs_rules runs_call) (simp_all add: script_call_def)

lemma runs_clone_mirror:
  "runs (run_inv token args data) (clone_mirror env token args' existing_repos package)"
  unfolding clone_mirror_def Let_def
  by (intro runs_rules runs_cond runs_clone_git_repo) (simp_all add: mirror_url_def)

lemma runs_update_package: "runs (run_inv token args data) (update_package env data package)"
  unfolding update_package_def Let_def
  by (intro runs_rules runs_stage_and_commit) auto

lemma runs_push_package:
  "''--skip-mirror-pushes'' \<notin> set args \<Longrightarrow> runs (run_inv token args data) (push_package env package)"
  unfolding push_package_def
  by (intro runs_rules runs_call) (simp_all add: script_call_def)

lemma runs_update_mirror_list:
  "runs (run_inv token args data) (update_mirror_list env token existing_repos packages data)"
  unfolding update_mirror_list_def Let_def
  by (intro runs_rules runs_call runs_clone_git_repo runs_stage_and_commit)
     (simp_all add: script_call_def mirror_url_def)

lemma andThen_assoc: "andThen (andThen m f) g = andThen m (\<lambda>a. andThen (f a) g)"
  by (rule ext) (simp add: andThen_def split: prod.splits sum.splits)

lemma mirror_split: "mirror env token args = andThen (mirror_head env) (mirror_rest env token args)"
  by (simp add: mirror_def mirror_head_def mirror_rest_def[abs_def] andThen_assoc)

lemma runs_mirror_head: "runs (run_inv token args data) (mirror_head env)"
  unfolding mirror_head_def
  by (intro runs_rules runs_clone_git_repo runs_check_commits)
     (simp_all add: GNU_ELPA_GIT_URL_def EMACS_GIT_URL_def GNU_ELPA_SUBDIR_def EMACS_SUBDIR_def
        mirror_url_def)

lemma runs_mirror_rest: "runs (run_inv token args data) (mirror_rest env token args data)"
  unfolding mirror_rest_def
  by (intro runs_rules runs_call runs_install_bugfix runs_clone_mirror runs_update_package
        runs_push_package runs_update_mirror_list)
     (simp_all add: script_call_def)

lemma mirror_trace:
  assumes "mirror env token args w = (r, w')"
  shows "\<exists>data new lines. trace w' = trace w @ new \<and> stderr w' = stderr w @ lines
           \<and> run_inv token args data new lines (raised r)"
proof -
  obtain r1 w1 where h: "mirror_head env w = (r1, w1)" by (metis prod.exhaust)
  show ?thesis
  proof (cases r1)
    case (Inl e)
    with assms h have "r = Inl e" "w' = w1" by (simp_all add: mirror_split andThen_def)
    with runsD[OF runs_mirror_head h, of token args undefined] Inl show ?thesis
      by auto
  next
    case (Inr data)
    with assms h have rest: "mirror_rest env token args data w1 = (r, w')"
      by (simp add: mirror_split andThen_def)
    from runsD[OF runs_mirror_head h, of token args data] Inr
    obtain n1 l1 where n1: "trace w1 = trace w @ n1" "stderr w1 = stderr w @ l1"
        "run_inv token args data n1 l1 None"
      by auto
    from runsD[OF runs_mirror_rest rest]
    obtain n2 l2 where n2: "trace w' = trace w1 @ n2" "stderr w' = stderr w1 @ l2"
        "run_inv token args data n2 l2 (raised r)"
      by blast
    from n1 n2 composable_run_inv[of token args data] have "run_inv token args data (n1 @ n2) (l1 @ l2) (raised r)"
      by (simp add: composable_def)
    with n1 n2 show ?thesis by auto
  qed
qed

lemma mirror_started:
  obtains data where "run_inv token args data (started (mirror env token args) w)
                        (printed (mirror env token args) w) (raised (fst (mirror env token args w)))"
proof -
  obtain r w' where m: "mirror env token args w = (r, w')" by (metis prod.exhaust)
  from mirror_trace[OF m] m show thesis
    by (auto simp: started_def printed_def intro: that)
qed

lemma script_call_commit:
  assumes "script_call args data i" and "''commit'' \<in> set (argv i)"
  shows "\<exists>message. argv i = commit_argv message data"
  using assms unfolding script_call_def
  by (elim disjE exE conjE; (simp; fail | blast | fastforce))

lemma commit_message_neq_push: "commit_message message data \<noteq> ''push''"
proof
  assume "commit_message message data = ''push''"
  then have "length (commit_message message data) = 4" by simp
  then show False by (simp add: commit_message_def)
qed

lemma script_call_push:
  assumes "script_call args data i" and "''push'' \<in> set (argv i)"
  shows "argv i = [''git'', ''push'', ''origin'', ''master'']
         \<and> (''--skip-mirror-pushes'' \<in> set args \<longrightarrow> cwd i = REPOS_SUBDIR @ [''gnu-elpa-mirror''])"
  using assms unfolding script_call_def
  by (elim disjE exE conjE;
      (simp add: commit_argv_def commit_message_neq_push commit_message_neq_push[symmetric]; fail
       | fastforce))

section \<open>Properties\<close>

subsection \<open>The options of a fresh clone\<close>


subsection \<open>Emptying a working directory\<close>





subsection \<open>The enumeration of the packages\<close>

lemma collect_packages_filter:
  "collect_packages root names packages
     = packages @ filter (\<lambda>name. is_dir root (GNU_ELPA_PACKAGES_SUBDIR @ [name])
                                   \<and> name \<noteq> ''gnu-elpa-mirror'') names"
  by (induction names arbitrary: packages) simp_all

lemma is_dir_child:
  assumes "listing root p = Some es"
  shows "is_dir root (p @ [name]) \<longleftrightarrow> (\<exists>n ds. map_of es name = Some n \<and> follow n = Some (Dir ds))"
  by (auto simp: is_dir_def stat_def lstat_snoc assms split: option.splits node.splits)

text \<open>
C7. When the packages directory of the archive can be listed, the enumeration returns,
  leaves the files as they are, and gives the sorted names that \<^verbatim>\<open>is_dir\<close> accepts,
  less the reserved name \<^verbatim>\<open>gnu-elpa-mirror\<close>. As a set these are the names of the
  entries that are directories or lead to one (\<^verbatim>\<open>is_dir\<close> follows a symbolic link),
  without the reserved name: that name is never in the list, and neither is the name of
  a regular file.
\<close>

theorem packages_are_the_directories:
  assumes "listing root GNU_ELPA_PACKAGES_SUBDIR = Some es"
  shows "\<exists>packages. list_packages root = (Inr packages, root)
           \<and> packages = filter (\<lambda>name. is_dir root (GNU_ELPA_PACKAGES_SUBDIR @ [name])
                                          \<and> name \<noteq> ''gnu-elpa-mirror'') (sort (map fst es))
           \<and> set packages = {name. \<exists>n ds. map_of es name = Some n \<and> follow n = Some (Dir ds)}
                               - {''gnu-elpa-mirror''}
           \<and> ''gnu-elpa-mirror'' \<notin> set packages
           \<and> (\<forall>name c. map_of es name = Some (File c) \<longrightarrow> name \<notin> set packages)"
proof -
  let ?P = "\<lambda>name. is_dir root (GNU_ELPA_PACKAGES_SUBDIR @ [name]) \<and> name \<noteq> ''gnu-elpa-mirror''"
  from assms have it: "iterdir root GNU_ELPA_PACKAGES_SUBDIR = Inr (map fst es)"
    by (simp add: iterdir_def listing_stat)
  then have run: "list_packages root = (Inr (filter ?P (sort (map fst es))), root)"
    by (simp add: list_packages_def collect_packages_filter)
  have mem: "name \<in> fst ` set es" if "map_of es name = Some n" for name n
    using that by (metis map_of_SomeD fst_conv image_eqI)
  have s: "set (filter ?P (sort (map fst es)))
             = {name. \<exists>n ds. map_of es name = Some n \<and> follow n = Some (Dir ds)} - {''gnu-elpa-mirror''}"
    using mem by (auto simp: is_dir_child[OF assms])
  have f: "name \<notin> set (filter ?P (sort (map fst es)))" if "map_of es name = Some (File c)" for name c
    unfolding s using that by simp
  from run s f show ?thesis by auto
qed

theorem packages_are_the_directories_witness:
  "listing demo_fs GNU_ELPA_PACKAGES_SUBDIR
     = Some [(''gnu-elpa-mirror'', Dir []), (''foo'', Dir upstream_foo), (''README'', File ''packages'')]
   \<and> list_packages demo_fs = (Inr [''foo''], demo_fs)"
proof -
  have h: "listing demo_fs GNU_ELPA_PACKAGES_SUBDIR
     = Some [(''gnu-elpa-mirror'', Dir []), (''foo'', Dir upstream_foo), (''README'', File ''packages'')]"
    by code_simp
  have s: "sort [''gnu-elpa-mirror'', ''foo'', ''README''] = [''README'', ''foo'', ''gnu-elpa-mirror'']"
    by code_simp
  have d: "\<not> is_dir demo_fs (GNU_ELPA_PACKAGES_SUBDIR @ [''README''])"
    "is_dir demo_fs (GNU_ELPA_PACKAGES_SUBDIR @ [''foo''])"
    by code_simp+
  from packages_are_the_directories[OF h] h s d show ?thesis
    by simp
qed

end
